theory Spec2Isabelle
  imports Main
begin

section \<open>The CockroachDB harness of sweet (sweet/harnesses/cockroachdb.go)\<close>

text \<open>
  The harness drives external tools: the Go tool, bazel, chmod, the benchmark driver
  and the file system.  Each such action is an \<^emph>\<open>event\<close>; a stage of the harness
  (\<open>CheckPrerequisites\<close>, \<open>Build\<close>, \<open>Run\<close>) is a function that returns the Go
  \<open>error\<close> of the stage (\<open>None\<close> for \<open>nil\<close>) together with the trace of the events it
  performed, each with its outcome.  What an event returns is not decided by the
  harness: it is read from a \<open>world\<close>, an arbitrary function of the events performed
  so far and of the event itself.
\<close>

subsection \<open>Errors, files, commands\<close>

text \<open>A Go \<open>error\<close>, by its message.\<close>

datatype error = Error string

text \<open>\<open>fmt.Errorf(prefix + "%v", err)\<close>: a new error whose message is the prefix
  followed by the message of \<open>err\<close>.\<close>

fun Errorf_v :: "string \<Rightarrow> error \<Rightarrow> error" where
  "Errorf_v prefix (Error msg) = Error (prefix @ msg)"

text \<open>An \<open>*os.File\<close> a command writes to: the harness process's own standard output
  and standard error, or another open file (the results file of a run).\<close>

datatype os_File = os_Stdout | os_Stderr | Open_File string

text \<open>
  \<open>exec.Cmd\<close>, with the fields the harness touches.  \<open>Args_Cmd\<close> is Go's \<open>Cmd.Args\<close>:
  the command name followed by its arguments.  \<open>Env\<close>, \<open>Stdout\<close> and \<open>Stderr\<close> are
  \<open>None\<close> while the field is \<open>nil\<close>, as \<open>exec.Command\<close> leaves them.
\<close>

record Cmd =
  Args_Cmd :: "string list"
  Dir :: string
  Env :: "string list option"
  Stdout :: "os_File option"
  Stderr :: "os_File option"

definition exec_Command :: "string \<Rightarrow> string list \<Rightarrow> Cmd" where
  "exec_Command name arg =
     \<lparr>Args_Cmd = name # arg, Dir = [], Env = None, Stdout = None, Stderr = None\<rparr>"

subsection \<open>Events, traces, the world\<close>

text \<open>
  The effects of the harness.  \<open>GoTool_Do wd args\<close> and \<open>GoTool_BuildPath path out\<close> are
  the two methods of \<open>cfg.GoTool()\<close> that \<open>Build\<close> calls; \<open>cmd_Run c\<close> is \<open>c.Run()\<close>;
  \<open>copyFile dst src\<close> and \<open>rmDirContents dir\<close> are the package's file helpers (their
  bodies are not part of this file of the repository: \<open>Build\<close>'s comment says the copy
  goes from \<open>cockroach-short\<close>, its second argument, to \<open>cockroach\<close>, its first);
  \<open>TraceCommand c b\<close> is \<open>log.TraceCommand(c, b)\<close>, which only logs.
\<close>

datatype event =
    GoTool_Do string "string list"
  | GoTool_BuildPath string string
  | cmd_Run Cmd
  | copyFile string string
  | rmDirContents string
  | TraceCommand Cmd bool

type_synonym trace = "(event \<times> error option) list"

type_synonym world = "trace \<Rightarrow> event \<Rightarrow> error option"

text \<open>Performing an event: the world answers, and the event is recorded with the
  answer.\<close>

definition perform :: "world \<Rightarrow> event \<Rightarrow> trace \<Rightarrow> error option \<times> trace" where
  "perform w ev tr = (w tr ev, tr @ [(ev, w tr ev)])"

text \<open>\<open>if err := step; err != nil { return err }\<close> followed by the rest of the
  function.\<close>

definition ok_then ::
  "error option \<times> trace \<Rightarrow> (trace \<Rightarrow> error option \<times> trace) \<Rightarrow> error option \<times> trace" where
  "ok_then r rest = (case fst r of Some err \<Rightarrow> (Some err, snd r) | None \<Rightarrow> rest (snd r))"

subsection \<open>The environment builder (sweet/common, not part of this file)\<close>

text \<open>
  Modelled from the spec: \<open>common.Env\<close> with its methods \<open>Prefix\<close>, \<open>MustSet\<close>,
  \<open>SetIfAbsent\<close> and \<open>Collapse\<close> is not among the sources.  The spec (3, 4.2)
  describes an overlay as an ordered list of edits over a base key/value environment,
  the edits being prefix-prepend, set-if-absent and force-set, applied in declaration
  order; \<open>Collapse\<close> returns the flat list of \<open>key=value\<close> strings, each key once, with
  the value that results from all the edits.  The order of the keys is the order of
  their first appearance.  Edits return a new overlay and leave the one they start
  from as it was.
\<close>

datatype edit =
    PrefixEdit string string
  | SetIfAbsentEdit string string
  | MustSetEdit string string

record Env =
  base :: "(string \<times> string) list"
  edits :: "edit list"

fun set_key :: "string \<Rightarrow> string \<Rightarrow> (string \<times> string) list \<Rightarrow> (string \<times> string) list" where
  "set_key k v [] = [(k, v)]"
| "set_key k v ((k', v') # kvs) =
     (if k' = k then (k, v) # kvs else (k', v') # set_key k v kvs)"

fun apply_edit :: "(string \<times> string) list \<Rightarrow> edit \<Rightarrow> (string \<times> string) list" where
  "apply_edit kvs (PrefixEdit k v) =
     (case map_of kvs k of None \<Rightarrow> set_key k v kvs | Some old \<Rightarrow> set_key k (v @ old) kvs)"
| "apply_edit kvs (SetIfAbsentEdit k v) =
     (case map_of kvs k of None \<Rightarrow> set_key k v kvs | Some old \<Rightarrow> kvs)"
| "apply_edit kvs (MustSetEdit k v) = set_key k v kvs"

definition Prefix :: "Env \<Rightarrow> string \<Rightarrow> string \<Rightarrow> Env" where
  "Prefix e k v = e\<lparr>edits := edits e @ [PrefixEdit k v]\<rparr>"

definition SetIfAbsent :: "Env \<Rightarrow> string \<Rightarrow> string \<Rightarrow> Env" where
  "SetIfAbsent e k v = e\<lparr>edits := edits e @ [SetIfAbsentEdit k v]\<rparr>"

text \<open>\<open>MustSet\<close> takes one string \<open>key=value\<close>; the key ends at the first \<open>=\<close>.\<close>

definition MustSet :: "Env \<Rightarrow> string \<Rightarrow> Env" where
  "MustSet e kv =
     e\<lparr>edits := edits e @
        [MustSetEdit (takeWhile (\<lambda>c. c \<noteq> CHR ''='') kv)
                     (drop 1 (dropWhile (\<lambda>c. c \<noteq> CHR ''='') kv))]\<rparr>"

definition Collapse :: "Env \<Rightarrow> string list" where
  "Collapse e =
     map (\<lambda>(k, v). k @ ''='' @ v)
       (foldl apply_edit [] (map (\<lambda>(k, v). MustSetEdit k v) (base e) @ edits e))"

subsection \<open>Configurations\<close>

text \<open>\<open>common.Config\<close>, \<open>common.BuildConfig\<close> and \<open>common.RunConfig\<close>, with the fields
  the harness reads.  \<open>BuildEnv\<close> and \<open>ExecEnv\<close> stand for the \<open>Env\<close> they wrap.\<close>

record Config =
  GoRoot :: string
  BuildEnv :: Env
  ExecEnv :: Env

record BuildConfig =
  SrcDir :: string
  BinDir :: string
  BenchDir :: string

record RunConfig =
  BinDir_Run :: string
  TmpDir :: string
  Args :: "string list"
  Short :: bool
  Results :: os_File

subsection \<open>CheckPrerequisites\<close>

text \<open>\<open>runtime.GOARCH\<close> is a constant of the Go runtime of the host: a parameter.\<close>

definition CheckPrerequisites :: "string \<Rightarrow> error option \<times> trace" where
  "CheckPrerequisites GOARCH =
     (if GOARCH \<noteq> ''arm64'' \<and> GOARCH \<noteq> ''amd64''
      then (Some (Error ''requires amd64 or arm64''), [])
      else (None, []))"

subsection \<open>Build\<close>

text \<open>
  \<open>filepath.Join\<close> of the Go library is the parameter \<open>Join\<close> (two elements each time
  it is called here).

  \<open>Build\<close> first installs bazelisk and returns if that fails.  Only then the \<open>defer\<close>
  statement registers the cleanup \<open>bazel clean --expunge\<close>; \<open>Build_steps\<close> is the rest
  of the function body after the \<open>defer\<close>, and the deferred function runs when it has
  returned, its own error dropped (\<open>_ = cmd.Run()\<close>).
\<close>

definition bazel_clean :: "BuildConfig \<Rightarrow> Cmd" where
  "bazel_clean bcfg =
     (exec_Command ''bazel'' [''clean'', ''--expunge''])
       \<lparr>Dir := SrcDir bcfg, Stdout := Some os_Stdout, Stderr := Some os_Stderr\<rparr>"

definition build_env :: "(string \<Rightarrow> string \<Rightarrow> string) \<Rightarrow> Config \<Rightarrow> Env" where
  "build_env Join cfg =
     MustSet (Prefix (BuildEnv cfg) ''PATH'' (Join (GoRoot cfg) ''bin'' @ '':''))
       (''GOROOT='' @ GoRoot cfg)"

definition bazel_gen_code :: "(string \<Rightarrow> string \<Rightarrow> string) \<Rightarrow> Config \<Rightarrow> BuildConfig \<Rightarrow> Cmd" where
  "bazel_gen_code Join cfg bcfg =
     (exec_Command ''bazel'' [''run'', ''//pkg/gen:code''])
       \<lparr>Dir := SrcDir bcfg, Env := Some (Collapse (build_env Join cfg)),
        Stdout := Some os_Stdout, Stderr := Some os_Stderr\<rparr>"

definition bazel_generate_cgo :: "(string \<Rightarrow> string \<Rightarrow> string) \<Rightarrow> Config \<Rightarrow> BuildConfig \<Rightarrow> Cmd" where
  "bazel_generate_cgo Join cfg bcfg =
     (exec_Command ''bazel''
        [''run'', ''//pkg/cmd/generate-cgo:generate-cgo'', ''--run_under'',
         ''cd '' @ SrcDir bcfg @ '' && ''])
       \<lparr>Dir := SrcDir bcfg, Env := Some (Collapse (build_env Join cfg)),
        Stdout := Some os_Stdout, Stderr := Some os_Stderr\<rparr>"

definition chmod_bench :: "(string \<Rightarrow> string \<Rightarrow> string) \<Rightarrow> BuildConfig \<Rightarrow> Cmd" where
  "chmod_bench Join bcfg =
     exec_Command ''chmod'' [''-R'', ''755'', Join (BinDir bcfg) ''cockroachdb-bench'']"

definition Build_steps ::
  "(string \<Rightarrow> string \<Rightarrow> string) \<Rightarrow> world \<Rightarrow> Config \<Rightarrow> BuildConfig \<Rightarrow> trace \<Rightarrow> error option \<times> trace" where
  "Build_steps Join w cfg bcfg tr =
     ok_then (perform w (cmd_Run (bazel_gen_code Join cfg bcfg)) tr) (\<lambda>tr.
     ok_then (perform w (cmd_Run (bazel_generate_cgo Join cfg bcfg)) tr) (\<lambda>tr.
     ok_then (perform w (GoTool_BuildPath (Join (SrcDir bcfg) ''pkg/cmd/cockroach-short'')
                           (BinDir bcfg)) tr) (\<lambda>tr.
     ok_then (perform w (copyFile (Join (BinDir bcfg) ''cockroach'')
                           (Join (BinDir bcfg) ''cockroach-short'')) tr) (\<lambda>tr.
     ok_then (perform w (GoTool_BuildPath (BenchDir bcfg)
                           (Join (BinDir bcfg) ''cockroachdb-bench'')) tr) (\<lambda>tr.
     ok_then (perform w (cmd_Run (chmod_bench Join bcfg)) tr) (\<lambda>tr.
     (None, tr)))))))"

definition Build ::
  "(string \<Rightarrow> string \<Rightarrow> string) \<Rightarrow> world \<Rightarrow> Config \<Rightarrow> BuildConfig \<Rightarrow> error option \<times> trace" where
  "Build Join w cfg bcfg =
     (case perform w (GoTool_Do [] [''install'', ''github.com/bazelbuild/bazelisk@latest'']) [] of
        (Some err, tr) \<Rightarrow> (Some (Errorf_v ''error building bazelisk: '' err), tr)
      | (None, tr) \<Rightarrow>
          (case Build_steps Join w cfg bcfg tr of
             (result, tr) \<Rightarrow> (result, snd (perform w (cmd_Run (bazel_clean bcfg)) tr))))"

text \<open>
  The six steps of \<open>Build_steps\<close> as a list, and the executor that runs a list of
  events in order and stops at the first that fails.  \<open>Build_steps\<close> is proved below
  to be this executor on this list.
\<close>

definition build_events ::
  "(string \<Rightarrow> string \<Rightarrow> string) \<Rightarrow> Config \<Rightarrow> BuildConfig \<Rightarrow> event list" where
  "build_events Join cfg bcfg =
     [cmd_Run (bazel_gen_code Join cfg bcfg),
      cmd_Run (bazel_generate_cgo Join cfg bcfg),
      GoTool_BuildPath (Join (SrcDir bcfg) ''pkg/cmd/cockroach-short'') (BinDir bcfg),
      copyFile (Join (BinDir bcfg) ''cockroach'') (Join (BinDir bcfg) ''cockroach-short''),
      GoTool_BuildPath (BenchDir bcfg) (Join (BinDir bcfg) ''cockroachdb-bench''),
      cmd_Run (chmod_bench Join bcfg)]"

primrec run_steps :: "world \<Rightarrow> event list \<Rightarrow> trace \<Rightarrow> error option \<times> trace" where
  "run_steps w [] = (\<lambda>tr. (None, tr))"
| "run_steps w (ev # evs) = (\<lambda>tr. ok_then (perform w ev tr) (run_steps w evs))"

subsection \<open>Run\<close>

text \<open>The argument list and the command of one variant, as the loop body builds
  them.\<close>

definition bench_args :: "(string \<Rightarrow> string \<Rightarrow> string) \<Rightarrow> RunConfig \<Rightarrow> string \<Rightarrow> string list" where
  "bench_args Join rcfg bench =
     (let args = Args rcfg @
            [''-bench'', bench,
             ''-cockroachdb-bin'', Join (BinDir_Run rcfg) ''cockroach'',
             ''-tmp'', TmpDir rcfg]
      in if Short rcfg then args @ [''-short''] else args)"

definition bench_cmd :: "(string \<Rightarrow> string \<Rightarrow> string) \<Rightarrow> Config \<Rightarrow> RunConfig \<Rightarrow> string \<Rightarrow> Cmd" where
  "bench_cmd Join cfg rcfg bench =
     (exec_Command (Join (BinDir_Run rcfg) ''cockroachdb-bench'') (bench_args Join rcfg bench))
       \<lparr>Env := Some (Collapse (ExecEnv cfg)),
        Stdout := Some (Results rcfg), Stderr := Some (Results rcfg)\<rparr>"

text \<open>The body of the \<open>for\<close> loop for one variant: a returned error is the \<open>return err\<close>
  that leaves \<open>Run\<close>.\<close>

definition run_bench ::
  "(string \<Rightarrow> string \<Rightarrow> string) \<Rightarrow> world \<Rightarrow> Config \<Rightarrow> RunConfig \<Rightarrow> string \<Rightarrow> trace \<Rightarrow> error option \<times> trace" where
  "run_bench Join w cfg rcfg bench tr =
     (let cmd = bench_cmd Join cfg rcfg bench;
          tr = tr @ [(TraceCommand cmd False, None)]
      in ok_then (perform w (cmd_Run cmd) tr) (\<lambda>tr.
         ok_then (perform w (rmDirContents (TmpDir rcfg)) tr) (\<lambda>tr.
         (None, tr))))"

text \<open>The \<open>for ... range\<close> loop over a list of variants.\<close>

fun run_loop ::
  "(string \<Rightarrow> string \<Rightarrow> string) \<Rightarrow> world \<Rightarrow> Config \<Rightarrow> RunConfig \<Rightarrow> string list \<Rightarrow> trace \<Rightarrow> error option \<times> trace" where
  "run_loop Join w cfg rcfg [] tr = (None, tr)"
| "run_loop Join w cfg rcfg (bench # rest) tr =
     (case run_bench Join w cfg rcfg bench tr of
        (Some err, tr) \<Rightarrow> (Some err, tr)
      | (None, tr) \<Rightarrow> run_loop Join w cfg rcfg rest tr)"

definition benches :: "string list" where
  "benches = [''kv0/nodes=1'', ''kv50/nodes=1'', ''kv95/nodes=1'',
              ''kv0/nodes=3'', ''kv50/nodes=3'', ''kv95/nodes=3'']"

definition Run ::
  "(string \<Rightarrow> string \<Rightarrow> string) \<Rightarrow> world \<Rightarrow> Config \<Rightarrow> RunConfig \<Rightarrow> error option \<times> trace" where
  "Run Join w cfg rcfg = run_loop Join w cfg rcfg benches []"

subsection \<open>Reading a trace\<close>

text \<open>The commands run, in order; how often a directory was purged; how often the
  build workspace was cleaned.\<close>

fun commands :: "trace \<Rightarrow> Cmd list" where
  "commands [] = []"
| "commands ((cmd_Run c, r) # tr) = c # commands tr"
| "commands (x # tr) = commands tr"

definition purges :: "string \<Rightarrow> trace \<Rightarrow> nat" where
  "purges dir tr = length (filter (\<lambda>x. fst x = rmDirContents dir) tr)"

definition cleanups :: "BuildConfig \<Rightarrow> trace \<Rightarrow> nat" where
  "cleanups bcfg tr = length (filter (\<lambda>x. fst x = cmd_Run (bazel_clean bcfg)) tr)"

subsection \<open>The shape of a run's trace\<close>

text \<open>What one variant leaves in the trace when its process and the purge after it
  succeed, and what the variant at which \<open>Run\<close> returns the error \<open>e\<close> leaves: its
  process failed with \<open>e\<close>, or its process succeeded and the purge failed with \<open>e\<close>.\<close>

definition ok_block :: "(string \<Rightarrow> string \<Rightarrow> string) \<Rightarrow> Config \<Rightarrow> RunConfig \<Rightarrow> string \<Rightarrow> trace" where
  "ok_block Join cfg rcfg bench =
     [(TraceCommand (bench_cmd Join cfg rcfg bench) False, None),
      (cmd_Run (bench_cmd Join cfg rcfg bench), None),
      (rmDirContents (TmpDir rcfg), None)]"

definition failed_block ::
  "(string \<Rightarrow> string \<Rightarrow> string) \<Rightarrow> Config \<Rightarrow> RunConfig \<Rightarrow> string \<Rightarrow> error \<Rightarrow> trace \<Rightarrow> bool" where
  "failed_block Join cfg rcfg bench e rest =
     (rest = [(TraceCommand (bench_cmd Join cfg rcfg bench) False, None),
            (cmd_Run (bench_cmd Join cfg rcfg bench), Some e)]
      \<or> rest = [(TraceCommand (bench_cmd Join cfg rcfg bench) False, None),
              (cmd_Run (bench_cmd Join cfg rcfg bench), None),
              (rmDirContents (TmpDir rcfg), Some e)])"

subsection \<open>Concrete hosts, configurations and worlds\<close>

text \<open>\<open>filepath.Join\<close> on two clean, non-empty elements puts a separator between
  them.\<close>

definition example_Join :: "string \<Rightarrow> string \<Rightarrow> string" where
  "example_Join dir name = dir @ ''/'' @ name"

definition example_cfg :: Config where
  "example_cfg =
     \<lparr>GoRoot = ''/go'',
      BuildEnv = \<lparr>base = [(''PATH'', ''/usr/bin'')], edits = []\<rparr>,
      ExecEnv = \<lparr>base = [(''HOME'', ''/root'')], edits = []\<rparr>\<rparr>"

definition example_bcfg :: BuildConfig where
  "example_bcfg = \<lparr>SrcDir = ''/src'', BinDir = ''/bin'', BenchDir = ''/bench''\<rparr>"

definition example_rcfg :: RunConfig where
  "example_rcfg =
     \<lparr>BinDir_Run = ''/bin'', TmpDir = ''/tmp'', Args = [''-v''], Short = False,
      Results = Open_File ''results''\<rparr>"

definition example_rcfg_short :: RunConfig where
  "example_rcfg_short = example_rcfg\<lparr>Short := True\<rparr>"

text \<open>A world where every event succeeds; one where the process of the variant
  \<open>b\<close> exits with an error; one where every purge fails; one where the Go tool's
  \<open>install\<close> fails.\<close>

definition world_ok :: world where
  "world_ok tr ev = None"

definition world_b_fails :: world where
  "world_b_fails tr ev =
     (if ev = cmd_Run (bench_cmd example_Join example_cfg example_rcfg ''b'')
      then Some (Error ''exit status 1'') else None)"

definition world_purge_fails :: world where
  "world_purge_fails tr ev =
     (case ev of rmDirContents dir \<Rightarrow> Some (Error ''permission denied'') | _ \<Rightarrow> None)"

definition world_install_fails :: world where
  "world_install_fails tr ev =
     (case ev of GoTool_Do wd args \<Rightarrow> Some (Error ''exit status 1'') | _ \<Rightarrow> None)"

section \<open>Properties\<close>

subsection \<open>The trace of the run loop\<close>

text \<open>A run's trace is a sequence of blocks of variants whose process and purge
  succeeded, followed, when \<open>Run\<close> returns an error, by the block of the variant at
  which it stopped.\<close>

lemma run_bench_cases:
  "run_bench J w cfg rcfg b tr = (r, tr') \<Longrightarrow>
     (r = None \<and> tr' = tr @ ok_block J cfg rcfg b)
     \<or> (\<exists>e rest. r = Some e \<and> tr' = tr @ rest \<and> failed_block J cfg rcfg b e rest)"
  by (auto simp: run_bench_def ok_then_def perform_def ok_block_def failed_block_def Let_def
      split: option.splits)

lemma run_loop_shape:
  "run_loop J w cfg rcfg bs tr0 = (r, tr) \<Longrightarrow>
     \<exists>n rest. n \<le> length bs
       \<and> tr = tr0 @ concat (map (ok_block J cfg rcfg) (take n bs)) @ rest
       \<and> (case r of None \<Rightarrow> n = length bs \<and> rest = []
           | Some e \<Rightarrow> n < length bs \<and> failed_block J cfg rcfg (bs ! n) e rest)"
proof (induction bs arbitrary: tr0 r tr)
  case Nil
  then show ?case by auto
next
  case (Cons b bs)
  obtain r1 tr1 where rb: "run_bench J w cfg rcfg b tr0 = (r1, tr1)"
    by (cases "run_bench J w cfg rcfg b tr0")
  from run_bench_cases [OF rb] show ?case
  proof (elim disjE conjE exE)
    assume ok: "r1 = None" "tr1 = tr0 @ ok_block J cfg rcfg b"
    with rb Cons.prems have "run_loop J w cfg rcfg bs tr1 = (r, tr)" by simp
    from Cons.IH [OF this] obtain n rest where
      n: "n \<le> length bs"
      and tr: "tr = tr1 @ concat (map (ok_block J cfg rcfg) (take n bs)) @ rest"
      and r: "case r of None \<Rightarrow> n = length bs \<and> rest = []
              | Some e \<Rightarrow> n < length bs \<and> failed_block J cfg rcfg (bs ! n) e rest"
      by blast
    show ?thesis
      by (rule exI [of _ "Suc n"], rule exI [of _ rest])
        (use n tr r ok in \<open>auto split: option.splits\<close>)
  next
    fix e rest
    assume bad: "r1 = Some e" "tr1 = tr0 @ rest" "failed_block J cfg rcfg b e rest"
    with rb Cons.prems have "r = Some e" "tr = tr0 @ rest" by auto
    then show ?thesis
      by (intro exI [of _ 0] exI [of _ rest]) (use bad in auto)
  qed
qed


lemma commands_append: "commands (xs @ ys) = commands xs @ commands ys"
  by (induction xs rule: commands.induct) auto

lemma commands_ok_blocks:
  "commands (concat (map (ok_block J cfg rcfg) xs)) = map (bench_cmd J cfg rcfg) xs"
  by (induction xs) (auto simp: ok_block_def)

lemma commands_failed_block:
  "failed_block J cfg rcfg b e rest \<Longrightarrow> commands rest = [bench_cmd J cfg rcfg b]"
  by (auto simp: failed_block_def)

lemma run_loop_commands:
  assumes "run_loop J w cfg rcfg bs [] = (r, tr)"
  shows "\<exists>k \<le> length bs. commands tr = map (bench_cmd J cfg rcfg) (take k bs)
           \<and> (r = None \<longrightarrow> k = length bs) \<and> (r \<noteq> None \<longrightarrow> 0 < k)"
proof -
  from run_loop_shape [OF assms] obtain n rest where
    n: "n \<le> length bs"
    and tr: "tr = concat (map (ok_block J cfg rcfg) (take n bs)) @ rest"
    and r: "case r of None \<Rightarrow> n = length bs \<and> rest = []
            | Some e \<Rightarrow> n < length bs \<and> failed_block J cfg rcfg (bs ! n) e rest"
    by auto
  show ?thesis
  proof (cases r)
    case None
    with n tr r show ?thesis
      by (intro exI [of _ n]) (simp add: commands_ok_blocks)
  next
    case (Some e)
    with r have lt: "n < length bs" and fb: "failed_block J cfg rcfg (bs ! n) e rest"
      by auto
    have "commands tr = map (bench_cmd J cfg rcfg) (take (Suc n) bs)"
      using tr lt commands_failed_block [OF fb]
      by (simp add: commands_append commands_ok_blocks take_Suc_conv_app_nth)
    with lt Some show ?thesis
      by (intro exI [of _ "Suc n"]) simp
  qed
qed

lemma ok_blocks_succeed: "\<forall>x \<in> set (concat (map (ok_block J cfg rcfg) xs)). snd x = None"
  by (auto simp: ok_block_def)

lemma run_loop_outcomes:
  assumes "run_loop J w cfg rcfg bs [] = (r, tr)"
  shows "(r = None \<and> (\<forall>x \<in> set tr. snd x = None))
         \<or> (\<exists>e pre ev. r = Some e \<and> tr = pre @ [(ev, Some e)] \<and> (\<forall>x \<in> set pre. snd x = None)
              \<and> (\<exists>b \<in> set bs. ev = cmd_Run (bench_cmd J cfg rcfg b)
                    \<or> ev = rmDirContents (TmpDir rcfg)
                       \<and> (\<exists>pre'. pre = pre' @ [(cmd_Run (bench_cmd J cfg rcfg b), None)])))"
proof -
  from run_loop_shape [OF assms] obtain n rest where
    n: "n \<le> length bs"
    and tr: "tr = concat (map (ok_block J cfg rcfg) (take n bs)) @ rest"
    and r: "case r of None \<Rightarrow> n = length bs \<and> rest = []
            | Some e \<Rightarrow> n < length bs \<and> failed_block J cfg rcfg (bs ! n) e rest"
    by auto
  let ?blocks = "concat (map (ok_block J cfg rcfg) (take n bs))"
  show ?thesis
  proof (cases r)
    case None
    with tr r ok_blocks_succeed [of J cfg rcfg "take n bs"] show ?thesis by auto
  next
    case (Some e)
    with r have lt: "n < length bs" and fb: "failed_block J cfg rcfg (bs ! n) e rest"
      by auto
    let ?c = "bench_cmd J cfg rcfg (bs ! n)"
    from lt have mem: "bs ! n \<in> set bs" by simp
    from fb consider
      (proc) "rest = [(TraceCommand ?c False, None), (cmd_Run ?c, Some e)]"
      | (purge) "rest = [(TraceCommand ?c False, None), (cmd_Run ?c, None),
                         (rmDirContents (TmpDir rcfg), Some e)]"
      by (auto simp: failed_block_def)
    then show ?thesis
    proof cases
      case proc
      have "tr = (?blocks @ [(TraceCommand ?c False, None)]) @ [(cmd_Run ?c, Some e)]"
        using tr proc by simp
      moreover have "\<forall>x \<in> set (?blocks @ [(TraceCommand ?c False, None)]). snd x = None"
        using ok_blocks_succeed [of J cfg rcfg "take n bs"] by auto
      ultimately show ?thesis using Some mem by blast
    next
      case purge
      let ?pre' = "?blocks @ [(TraceCommand ?c False, None)]"
      have "tr = (?pre' @ [(cmd_Run ?c, None)]) @ [(rmDirContents (TmpDir rcfg), Some e)]"
        using tr purge by simp
      moreover have "\<forall>x \<in> set (?pre' @ [(cmd_Run ?c, None)]). snd x = None"
        using ok_blocks_succeed [of J cfg rcfg "take n bs"] by auto
      ultimately show ?thesis using Some mem by blast
    qed
  qed
qed

lemma failure_is_last:
  assumes "\<forall>x \<in> set A. snd x = None" and "A @ [y] = pre @ (ev, Some e) # post"
  shows "post = [] \<and> pre = A \<and> y = (ev, Some e)"
  using assms
proof (induction A arbitrary: pre)
  case Nil
  then show ?case by (cases pre) auto
next
  case (Cons a A)
  show ?case
  proof (cases pre)
    case Nil
    with Cons.prems show ?thesis by auto
  next
    case (Cons p pre')
    with Cons.prems Cons.IH [of pre'] show ?thesis by auto
  qed
qed

lemma purges_append: "purges d (xs @ ys) = purges d xs + purges d ys"
  by (simp add: purges_def)

lemma purges_ok_blocks:
  "purges (TmpDir rcfg) (concat (map (ok_block J cfg rcfg) xs)) = length xs"
  by (induction xs) (auto simp: ok_block_def purges_def)

lemma ok_blocks_purge_follows:
  assumes "concat (map (ok_block J cfg rcfg) xs) @ rest = pre @ (cmd_Run c, None) # post"
    and "rest = [] \<or> failed_block J cfg rcfg b e rest"
  shows "\<exists>res post'. post = (rmDirContents (TmpDir rcfg), res) # post'"
  using assms
proof (induction xs arbitrary: pre)
  case Nil
  then show ?case
    by (auto simp: failed_block_def append_eq_Cons_conv)
next
  case (Cons x xs)
  let ?tail = "concat (map (ok_block J cfg rcfg) xs) @ rest"
  have "ok_block J cfg rcfg x =
      [(TraceCommand (bench_cmd J cfg rcfg x) False, None),
       (cmd_Run (bench_cmd J cfg rcfg x), None),
       (rmDirContents (TmpDir rcfg), None)]"
    by (simp add: ok_block_def)
  with Cons.prems(1) have eq:
    "(TraceCommand (bench_cmd J cfg rcfg x) False, None)
       # (cmd_Run (bench_cmd J cfg rcfg x), None)
       # (rmDirContents (TmpDir rcfg), None) # ?tail
     = pre @ (cmd_Run c, None) # post"
    by simp
  show ?case
  proof (cases pre)
    case Nil
    with eq show ?thesis by simp
  next
    case p1: (Cons a pre1)
    show ?thesis
    proof (cases pre1)
      case Nil
      with eq p1 show ?thesis by auto
    next
      case p2: (Cons b pre2)
      show ?thesis
      proof (cases pre2)
        case Nil
        with eq p1 p2 show ?thesis by simp
      next
        case p3: (Cons d pre3)
        with eq p1 p2 have "?tail = pre3 @ (cmd_Run c, None) # post" by simp
        from Cons.IH [OF this Cons.prems(2)] show ?thesis .
      qed
    qed
  qed
qed


lemma Run_commands:
  "\<exists>k \<le> 6. commands (snd (Run J w cfg rcfg)) = map (bench_cmd J cfg rcfg) (take k benches)
      \<and> (fst (Run J w cfg rcfg) = None \<longrightarrow> k = 6)"
proof -
  have "run_loop J w cfg rcfg benches [] = (fst (Run J w cfg rcfg), snd (Run J w cfg rcfg))"
    by (simp add: Run_def)
  from run_loop_commands [OF this] obtain k where
    "k \<le> length benches"
    "commands (snd (Run J w cfg rcfg)) = map (bench_cmd J cfg rcfg) (take k benches)"
    "fst (Run J w cfg rcfg) = None \<longrightarrow> k = length benches"
    by (elim exE conjE)
  moreover have "length benches = 6"
    by (simp add: benches_def)
  ultimately show ?thesis
    by (intro exI [of _ k]) simp
qed

lemma Run_commands_nth:
  assumes "i < length (commands (snd (Run J w cfg rcfg)))"
  shows "commands (snd (Run J w cfg rcfg)) ! i = bench_cmd J cfg rcfg (benches ! i)"
proof -
  from Run_commands [of J w cfg rcfg] obtain k where
    k: "k \<le> 6"
    and cmds: "commands (snd (Run J w cfg rcfg)) = map (bench_cmd J cfg rcfg) (take k benches)"
    by blast
  from assms cmds have "i < length (take k benches)" by simp
  with cmds show ?thesis by simp
qed

lemma Run_commands_mem:
  assumes "c \<in> set (commands (snd (Run J w cfg rcfg)))"
  shows "\<exists>b \<in> set benches. c = bench_cmd J cfg rcfg b"
proof -
  from Run_commands [of J w cfg rcfg] obtain k where
    cmds: "commands (snd (Run J w cfg rcfg)) = map (bench_cmd J cfg rcfg) (take k benches)"
    by blast
  with assms obtain b where "b \<in> set (take k benches)" "c = bench_cmd J cfg rcfg b"
    by auto
  then show ?thesis
    using in_set_takeD by fast
qed

lemmas model_defs = Run_def benches_def run_bench_def ok_then_def perform_def bench_cmd_def
  bench_args_def exec_Command_def Collapse_def Let_def purges_def

lemmas example_defs = example_Join_def example_cfg_def example_rcfg_def example_rcfg_short_def
  example_bcfg_def world_ok_def world_b_fails_def world_purge_fails_def world_install_fails_def


subsection \<open>The trace of Build\<close>

text \<open>\<open>Build_steps\<close> runs its six events in order and stops at the first that fails;
  none of the six is the cleanup command.\<close>

lemmas build_cmd_defs = bazel_clean_def bazel_gen_code_def bazel_generate_cgo_def chmod_bench_def
  exec_Command_def

lemma cleanups_append: "cleanups bcfg (xs @ ys) = cleanups bcfg xs + cleanups bcfg ys"
  by (simp add: cleanups_def)

lemma Build_steps_run_steps:
  "Build_steps Join w cfg bcfg tr = run_steps w (build_events Join cfg bcfg) tr"
  by (simp add: Build_steps_def build_events_def)

lemma run_steps_cleanups:
  "cmd_Run (bazel_clean bcfg) \<notin> set evs \<Longrightarrow>
     cleanups bcfg (snd (run_steps w evs tr)) = cleanups bcfg tr"
  by (induction evs arbitrary: tr)
    (auto simp: ok_then_def perform_def cleanups_def split: option.splits)

lemma run_steps_ok:
  "fst (run_steps w evs tr) = None \<Longrightarrow>
     snd (run_steps w evs tr) = tr @ map (\<lambda>ev. (ev, None)) evs"
  by (induction evs arbitrary: tr)
    (auto simp: ok_then_def perform_def split: option.splits)

lemma clean_not_a_step: "cmd_Run (bazel_clean bcfg) \<notin> set (build_events Join cfg bcfg)"
  by (simp add: build_events_def build_cmd_defs)

lemma Build_steps_no_cleanup:
  "cleanups bcfg (snd (Build_steps Join w cfg bcfg tr)) = cleanups bcfg tr"
  by (simp add: Build_steps_run_steps run_steps_cleanups clean_not_a_step)

lemma Build_ok_trace:
  assumes "fst (Build Join w cfg bcfg) = None"
  shows "\<exists>res. snd (Build Join w cfg bcfg)
           = (GoTool_Do [] [''install'', ''github.com/bazelbuild/bazelisk@latest''], None)
             # map (\<lambda>ev. (ev, None)) (build_events Join cfg bcfg)
             @ [(cmd_Run (bazel_clean bcfg), res)]"
proof (cases "w [] (GoTool_Do [] [''install'', ''github.com/bazelbuild/bazelisk@latest''])")
  case (Some err)
  with assms show ?thesis
    by (simp add: Build_def perform_def)
next
  case None
  let ?tr1 = "[(GoTool_Do [] [''install'', ''github.com/bazelbuild/bazelisk@latest''], None)]"
  let ?steps = "run_steps w (build_events Join cfg bcfg) ?tr1"
  have build: "Build Join w cfg bcfg
      = (fst ?steps, snd (perform w (cmd_Run (bazel_clean bcfg)) (snd ?steps)))"
    using None by (simp add: Build_def perform_def Build_steps_run_steps split: prod.splits)
  with assms have "fst ?steps = None" by simp
  from run_steps_ok [OF this] build show ?thesis
    by (simp add: perform_def)
qed

lemma Build_ok_copies:
  assumes "fst (Build Join w cfg bcfg) = None"
  shows "(GoTool_BuildPath (Join (SrcDir bcfg) ''pkg/cmd/cockroach-short'') (BinDir bcfg), None)
           \<in> set (snd (Build Join w cfg bcfg))
         \<and> (copyFile (Join (BinDir bcfg) ''cockroach'') (Join (BinDir bcfg) ''cockroach-short''),
              None) \<in> set (snd (Build Join w cfg bcfg))"
proof -
  from Build_ok_trace [OF assms] obtain res where
    "snd (Build Join w cfg bcfg)
       = (GoTool_Do [] [''install'', ''github.com/bazelbuild/bazelisk@latest''], None)
         # map (\<lambda>ev. (ev, None)) (build_events Join cfg bcfg)
         @ [(cmd_Run (bazel_clean bcfg), res)]"
    by (elim exE)
  then show ?thesis
    by (simp add: build_events_def)
qed

lemma bench_cmd_args:
  "Args_Cmd (bench_cmd Join cfg rcfg b)
     = Join (BinDir_Run rcfg) ''cockroachdb-bench''
       # (Args rcfg
          @ [''-bench'', b, ''-cockroachdb-bin'', Join (BinDir_Run rcfg) ''cockroach'',
             ''-tmp'', TmpDir rcfg]
          @ (if Short rcfg then [''-short''] else []))"
  by (simp add: bench_cmd_def bench_args_def exec_Command_def)

lemma Run_commands_args:
  assumes "c \<in> set (commands (snd (Run Join w cfg rcfg)))"
  shows "\<exists>b \<in> set benches.
           Args_Cmd c = Join (BinDir_Run rcfg) ''cockroachdb-bench''
             # (Args rcfg
                @ [''-bench'', b, ''-cockroachdb-bin'', Join (BinDir_Run rcfg) ''cockroach'',
                   ''-tmp'', TmpDir rcfg]
                @ (if Short rcfg then [''-short''] else []))"
proof -
  from Run_commands_mem [OF assms] obtain b where
    b: "b \<in> set benches" and c: "c = bench_cmd Join cfg rcfg b"
    by (elim bexE)
  show ?thesis
    unfolding c by (rule bexI [OF bench_cmd_args b])
qed

subsection \<open>CheckPrerequisites\<close>

text \<open>
  C5: \<open>CheckPrerequisites\<close> performs no event (its trace is empty) and its result
  depends on the host architecture alone: it returns an error exactly when the
  architecture is neither \<open>arm64\<close> nor \<open>amd64\<close>, and \<open>nil\<close> on those two.
\<close>

theorem CheckPrerequisites_arch:
  "snd (CheckPrerequisites GOARCH) = []
   \<and> (fst (CheckPrerequisites GOARCH) = None) = (GOARCH = ''arm64'' \<or> GOARCH = ''amd64'')
   \<and> (fst (CheckPrerequisites GOARCH) = Some (Error ''requires amd64 or arm64''))
       = (GOARCH \<noteq> ''arm64'' \<and> GOARCH \<noteq> ''amd64'')"
  by (simp add: CheckPrerequisites_def)

subsection \<open>Run stops at the first failure\<close>

text \<open>
  C3, as the code has it: \<open>Run\<close> invokes the benchmark driver for the first \<open>k\<close>
  variants of its list, in order, and for no other.  When it returns \<open>nil\<close>, \<open>k\<close> is the
  length of the list and every process and every purge succeeded (and when all of
  them succeed it returns \<open>nil\<close>).  When it returns an error, \<open>k\<close> is at least one, the
  error is the outcome of the last event of the trace, every event before it
  succeeded, and that last event is the process of variant \<open>k\<close> or the purge of the
  scratch directory after it.  So the driver is invoked exactly \<open>k\<close> times when the
  first failure is that of variant \<open>k\<close>'s process or of the purge after it.
\<close>

theorem run_loop_first_failure:
  assumes "run_loop J w cfg rcfg bs [] = (r, tr)"
  shows "\<exists>k \<le> length bs.
           commands tr = map (bench_cmd J cfg rcfg) (take k bs)
         \<and> (r = None \<longrightarrow> k = length bs \<and> (\<forall>x \<in> set tr. snd x = None))
         \<and> ((\<forall>x \<in> set tr. snd x = None) \<longrightarrow> r = None)
         \<and> (\<forall>e. r = Some e \<longrightarrow>
               0 < k \<and> (\<exists>pre ev. tr = pre @ [(ev, Some e)] \<and> (\<forall>x \<in> set pre. snd x = None)
                 \<and> (ev = cmd_Run (bench_cmd J cfg rcfg (bs ! (k - 1)))
                      \<or> ev = rmDirContents (TmpDir rcfg))))"
proof -
  from run_loop_shape [OF assms] obtain n rest where
    n: "n \<le> length bs"
    and tr: "tr = concat (map (ok_block J cfg rcfg) (take n bs)) @ rest"
    and r: "case r of None \<Rightarrow> n = length bs \<and> rest = []
            | Some e \<Rightarrow> n < length bs \<and> failed_block J cfg rcfg (bs ! n) e rest"
    by auto
  let ?blocks = "concat (map (ok_block J cfg rcfg) (take n bs))"
  have blocks: "\<forall>x \<in> set ?blocks. snd x = None"
    by (rule ok_blocks_succeed)
  show ?thesis
  proof (cases r)
    case None
    with n tr r blocks show ?thesis
      by (intro exI [of _ n]) (simp add: commands_ok_blocks)
  next
    case (Some e)
    with r have lt: "n < length bs" and fb: "failed_block J cfg rcfg (bs ! n) e rest"
      by auto
    let ?c = "bench_cmd J cfg rcfg (bs ! n)"
    have cmds: "commands tr = map (bench_cmd J cfg rcfg) (take (Suc n) bs)"
      using tr lt commands_failed_block [OF fb]
      by (simp add: commands_append commands_ok_blocks take_Suc_conv_app_nth)
    have last: "\<exists>pre ev. tr = pre @ [(ev, Some e)] \<and> (\<forall>x \<in> set pre. snd x = None)
        \<and> (ev = cmd_Run ?c \<or> ev = rmDirContents (TmpDir rcfg))"
      using fb unfolding failed_block_def
    proof
      assume "rest = [(TraceCommand ?c False, None), (cmd_Run ?c, Some e)]"
      with tr have "tr = (?blocks @ [(TraceCommand ?c False, None)]) @ [(cmd_Run ?c, Some e)]"
        by simp
      moreover have "\<forall>x \<in> set (?blocks @ [(TraceCommand ?c False, None)]). snd x = None"
        using blocks by auto
      ultimately show ?thesis by blast
    next
      assume "rest = [(TraceCommand ?c False, None), (cmd_Run ?c, None),
                      (rmDirContents (TmpDir rcfg), Some e)]"
      with tr have "tr = (?blocks @ [(TraceCommand ?c False, None), (cmd_Run ?c, None)])
                         @ [(rmDirContents (TmpDir rcfg), Some e)]"
        by simp
      moreover have "\<forall>x \<in> set (?blocks @ [(TraceCommand ?c False, None), (cmd_Run ?c, None)]).
                       snd x = None"
        using blocks by auto
      ultimately show ?thesis by blast
    qed
    from last have notall: "\<not> (\<forall>x \<in> set tr. snd x = None)" by auto
    show ?thesis
      using lt cmds last notall Some
      by (intro exI [of _ "Suc n"]) simp
  qed
qed


text \<open>The theorem at the variant list \<open>a, b, c\<close> where the process of \<open>b\<close> fails: two
  invocations.\<close>

theorem run_loop_first_failure_witness:
  "run_loop example_Join world_b_fails example_cfg example_rcfg [''a'', ''b'', ''c''] []
     = (Some (Error ''exit status 1''),
        ok_block example_Join example_cfg example_rcfg ''a''
        @ [(TraceCommand (bench_cmd example_Join example_cfg example_rcfg ''b'') False, None),
           (cmd_Run (bench_cmd example_Join example_cfg example_rcfg ''b''),
            Some (Error ''exit status 1''))])
   \<and> length (commands (snd (run_loop example_Join world_b_fails example_cfg example_rcfg
                              [''a'', ''b'', ''c''] []))) = 2"
proof -
  have run: "run_loop example_Join world_b_fails example_cfg example_rcfg [''a'', ''b'', ''c''] []
     = (Some (Error ''exit status 1''),
        ok_block example_Join example_cfg example_rcfg ''a''
        @ [(TraceCommand (bench_cmd example_Join example_cfg example_rcfg ''b'') False, None),
           (cmd_Run (bench_cmd example_Join example_cfg example_rcfg ''b''),
            Some (Error ''exit status 1''))])"
    by (simp add: model_defs example_defs ok_block_def)
  from run_loop_first_failure [OF run] show ?thesis
    using run by (simp add: ok_block_def)
qed


text \<open>C3 as stated fails where a purge fails: the process of every variant invoked
  succeeded, no variant failed, and yet the driver is invoked once, not six
  times.\<close>

theorem Run_continues_only_after_purge_counterexample:
  "Run example_Join world_purge_fails example_cfg example_rcfg
     = (Some (Error ''permission denied''),
        [(TraceCommand (bench_cmd example_Join example_cfg example_rcfg ''kv0/nodes=1'') False, None),
         (cmd_Run (bench_cmd example_Join example_cfg example_rcfg ''kv0/nodes=1''), None),
         (rmDirContents ''/tmp'', Some (Error ''permission denied''))])
   \<and> length (commands (snd (Run example_Join world_purge_fails example_cfg example_rcfg))) = 1
   \<and> length benches = 6"
  by (simp add: model_defs example_defs)

subsection \<open>The scratch directory is purged after each successful variant\<close>

text \<open>
  C1, as the code has it: in the trace of the run loop, every process that exited
  successfully is followed at once by the purge of \<open>TmpDir\<close>, before the next variant
  or the return; a process that exited with an error is the last event, \<open>Run\<close>
  returning that error without a purge.  So when the run ends at a failed process,
  the number of purges is one less than the number of processes invoked, and when
  \<open>Run\<close> returns \<open>nil\<close> there is one purge for each variant.
\<close>

theorem run_loop_purges_after_success:
  assumes "run_loop J w cfg rcfg bs [] = (r, tr)"
  shows "(\<forall>pre c post. tr = pre @ (cmd_Run c, None) # post \<longrightarrow>
            (\<exists>res post'. post = (rmDirContents (TmpDir rcfg), res) # post'))
       \<and> (\<forall>pre c e post. tr = pre @ (cmd_Run c, Some e) # post \<longrightarrow> post = [] \<and> r = Some e)
       \<and> (\<forall>c e. tr \<noteq> [] \<and> last tr = (cmd_Run c, Some e) \<longrightarrow>
            Suc (purges (TmpDir rcfg) tr) = length (commands tr))
       \<and> (r = None \<longrightarrow> purges (TmpDir rcfg) tr = length bs)"
proof -
  from run_loop_shape [OF assms] obtain n rest where
    n: "n \<le> length bs"
    and tr: "tr = concat (map (ok_block J cfg rcfg) (take n bs)) @ rest"
    and r: "case r of None \<Rightarrow> n = length bs \<and> rest = []
            | Some e \<Rightarrow> n < length bs \<and> failed_block J cfg rcfg (bs ! n) e rest"
    by auto
  have rest: "rest = [] \<or> failed_block J cfg rcfg (bs ! n) (case r of Some e \<Rightarrow> e) rest"
    using r by (cases r) auto
  have follows: "\<exists>res post'. post = (rmDirContents (TmpDir rcfg), res) # post'"
    if "tr = pre @ (cmd_Run c, None) # post" for pre c post
  proof -
    from that tr have "concat (map (ok_block J cfg rcfg) (take n bs)) @ rest
        = pre @ (cmd_Run c, None) # post"
      by simp
    from ok_blocks_purge_follows [OF this rest] show ?thesis .
  qed
  have stops: "post = [] \<and> r = Some e"
    if split: "tr = pre @ (cmd_Run c, Some e) # post" for pre c e post
  proof -
    from run_loop_outcomes [OF assms] show ?thesis
    proof (elim disjE conjE exE)
      assume "\<forall>x \<in> set tr. snd x = None"
      with split show ?thesis by auto
    next
      fix e' A ev
      assume e': "r = Some e'" and A: "tr = A @ [(ev, Some e')]" "\<forall>x \<in> set A. snd x = None"
      from failure_is_last [OF A(2), of "(ev, Some e')" pre "cmd_Run c" e post] A(1) split e'
      show ?thesis by simp
    qed
  qed
  have count: "Suc (purges (TmpDir rcfg) tr) = length (commands tr)"
    if "tr \<noteq> []" "last tr = (cmd_Run c, Some e)" for c e
  proof (cases r)
    case None
    with r tr have "\<forall>x \<in> set tr. snd x = None"
      using ok_blocks_succeed [of J cfg rcfg "take n bs"] by simp
    moreover from that(1) have "last tr \<in> set tr" by simp
    ultimately have "snd (last tr) = None" by blast
    with that(2) show ?thesis by simp
  next
    case (Some e')
    with r have fb: "failed_block J cfg rcfg (bs ! n) e' rest" by simp
    with that tr have "rest = [(TraceCommand (bench_cmd J cfg rcfg (bs ! n)) False, None),
                               (cmd_Run (bench_cmd J cfg rcfg (bs ! n)), Some e')]"
      by (auto simp: failed_block_def)
    with tr n show ?thesis
      by (simp add: purges_append purges_ok_blocks commands_append commands_ok_blocks)
        (simp add: purges_def)
  qed
  have full: "purges (TmpDir rcfg) tr = length bs" if "r = None"
    using that r tr by (simp add: purges_ok_blocks)
  show ?thesis
  proof (intro conjI allI impI)
    fix pre c post
    assume "tr = pre @ (cmd_Run c, None) # post"
    then show "\<exists>res post'. post = (rmDirContents (TmpDir rcfg), res) # post'"
      by (rule follows)
  next
    fix pre c e post
    assume "tr = pre @ (cmd_Run c, Some e) # post"
    then show "post = []" "r = Some e"
      using stops by blast+
  next
    fix c e
    assume "tr \<noteq> [] \<and> last tr = (cmd_Run c, Some e)"
    then show "Suc (purges (TmpDir rcfg) tr) = length (commands tr)"
      using count by blast
  next
    assume "r = None"
    then show "purges (TmpDir rcfg) tr = length bs"
      by (rule full)
  qed
qed


text \<open>The theorem at the variant list \<open>a, b, c\<close> where the process of \<open>b\<close> fails: one
  purge, after \<open>a\<close>.\<close>

theorem run_loop_purges_after_success_witness:
  "purges ''/tmp'' (snd (run_loop example_Join world_b_fails example_cfg example_rcfg
                           [''a'', ''b'', ''c''] [])) = 1
   \<and> fst (run_loop example_Join world_b_fails example_cfg example_rcfg
            [''a'', ''b'', ''c''] []) = Some (Error ''exit status 1'')"
proof -
  have run: "run_loop example_Join world_b_fails example_cfg example_rcfg [''a'', ''b'', ''c''] []
     = (Some (Error ''exit status 1''),
        ok_block example_Join example_cfg example_rcfg ''a''
        @ [(TraceCommand (bench_cmd example_Join example_cfg example_rcfg ''b'') False, None),
           (cmd_Run (bench_cmd example_Join example_cfg example_rcfg ''b''),
            Some (Error ''exit status 1''))])"
    by (simp add: model_defs example_defs ok_block_def)
  have tmp: "TmpDir example_rcfg = ''/tmp''"
    by (simp add: example_rcfg_def)
  from run_loop_purges_after_success [OF run] show ?thesis
    using run tmp by (simp add: ok_block_def)
qed


text \<open>C1 as stated fails at the variant list \<open>a, b, c\<close> where \<open>b\<close> fails: the trace
  ends with the failed process of \<open>b\<close>, and \<open>TmpDir\<close> was purged once, not twice.\<close>

theorem purge_after_failed_variant_counterexample:
  "run_loop example_Join world_b_fails example_cfg example_rcfg [''a'', ''b'', ''c''] []
     = (Some (Error ''exit status 1''),
        [(TraceCommand (bench_cmd example_Join example_cfg example_rcfg ''a'') False, None),
         (cmd_Run (bench_cmd example_Join example_cfg example_rcfg ''a''), None),
         (rmDirContents ''/tmp'', None),
         (TraceCommand (bench_cmd example_Join example_cfg example_rcfg ''b'') False, None),
         (cmd_Run (bench_cmd example_Join example_cfg example_rcfg ''b''),
          Some (Error ''exit status 1''))])
   \<and> purges ''/tmp'' (snd (run_loop example_Join world_b_fails example_cfg example_rcfg
                              [''a'', ''b'', ''c''] [])) \<noteq> 2"
  by (simp add: model_defs example_defs)

subsection \<open>The six variants\<close>

text \<open>
  C9: the commands \<open>Run\<close> runs are those of the first \<open>k\<close> variants, for some \<open>k\<close> up to
  six, of the list \<open>kv0/nodes=1\<close>, \<open>kv50/nodes=1\<close>, \<open>kv95/nodes=1\<close>, \<open>kv0/nodes=3\<close>,
  \<open>kv50/nodes=3\<close>, \<open>kv95/nodes=3\<close>, in that order; when \<open>Run\<close> returns \<open>nil\<close> they are
  the commands of all six, so the benchmark driver was invoked exactly six times.
\<close>

theorem Run_six_variants:
  "(\<exists>k \<le> 6. commands (snd (Run J w cfg rcfg))
       = map (bench_cmd J cfg rcfg)
           (take k [''kv0/nodes=1'', ''kv50/nodes=1'', ''kv95/nodes=1'',
                    ''kv0/nodes=3'', ''kv50/nodes=3'', ''kv95/nodes=3'']))
   \<and> (fst (Run J w cfg rcfg) = None \<longrightarrow>
        commands (snd (Run J w cfg rcfg))
          = map (bench_cmd J cfg rcfg)
              [''kv0/nodes=1'', ''kv50/nodes=1'', ''kv95/nodes=1'',
               ''kv0/nodes=3'', ''kv50/nodes=3'', ''kv95/nodes=3'']
        \<and> length (commands (snd (Run J w cfg rcfg))) = 6)"
proof -
  from Run_commands [of J w cfg rcfg] obtain k where
    k: "k \<le> 6"
    and cmds: "commands (snd (Run J w cfg rcfg)) = map (bench_cmd J cfg rcfg) (take k benches)"
    and full: "fst (Run J w cfg rcfg) = None \<longrightarrow> k = 6"
    by (elim exE conjE)
  have six: "benches = [''kv0/nodes=1'', ''kv50/nodes=1'', ''kv95/nodes=1'',
                        ''kv0/nodes=3'', ''kv50/nodes=3'', ''kv95/nodes=3'']"
    by (simp add: benches_def)
  have len: "length benches = 6"
    by (simp add: benches_def)
  show ?thesis
  proof (intro conjI impI)
    from k cmds six show "\<exists>k \<le> 6. commands (snd (Run J w cfg rcfg))
       = map (bench_cmd J cfg rcfg)
           (take k [''kv0/nodes=1'', ''kv50/nodes=1'', ''kv95/nodes=1'',
                    ''kv0/nodes=3'', ''kv50/nodes=3'', ''kv95/nodes=3''])"
      by auto
  next
    assume "fst (Run J w cfg rcfg) = None"
    with full have "k = 6" by simp
    with cmds len have all: "commands (snd (Run J w cfg rcfg)) = map (bench_cmd J cfg rcfg) benches"
      by simp
    with six show "commands (snd (Run J w cfg rcfg))
          = map (bench_cmd J cfg rcfg)
              [''kv0/nodes=1'', ''kv50/nodes=1'', ''kv95/nodes=1'',
               ''kv0/nodes=3'', ''kv50/nodes=3'', ''kv95/nodes=3'']"
      by simp
    from all len show "length (commands (snd (Run J w cfg rcfg))) = 6"
      by simp
  qed
qed

text \<open>The theorem in the world where everything succeeds: six invocations, whose
  \<open>-bench\<close> arguments are the six variants in order.\<close>

theorem Run_six_variants_witness:
  "fst (Run example_Join world_ok example_cfg example_rcfg) = None
   \<and> length (commands (snd (Run example_Join world_ok example_cfg example_rcfg))) = 6
   \<and> map (\<lambda>c. Args_Cmd c ! 3) (commands (snd (Run example_Join world_ok example_cfg example_rcfg)))
       = [''kv0/nodes=1'', ''kv50/nodes=1'', ''kv95/nodes=1'',
          ''kv0/nodes=3'', ''kv50/nodes=3'', ''kv95/nodes=3'']"
proof -
  have ok: "fst (Run example_Join world_ok example_cfg example_rcfg) = None"
    by (simp add: model_defs example_defs)
  from Run_six_variants [of example_Join world_ok example_cfg example_rcfg] ok
  show ?thesis
    by (simp add: bench_cmd_def bench_args_def exec_Command_def example_rcfg_def)
qed

subsection \<open>The argument list of a variant\<close>

text \<open>
  C4, as the code has it: the \<open>i\<close>-th command \<open>Run\<close> runs is the benchmark driver
  \<open>BinDir/cockroachdb-bench\<close> with the arguments: the base arguments \<open>Args\<close>, then
  \<open>-bench\<close> and the \<open>i\<close>-th variant, then the resolved paths (\<open>-cockroachdb-bin\<close> with
  \<open>BinDir/cockroach\<close>, \<open>-tmp\<close> with \<open>TmpDir\<close>), then \<open>-short\<close> exactly when \<open>Short\<close> is set.
  The short-mode flag is the last argument, after the paths.
\<close>

theorem Run_argument_list:
  assumes "i < length (commands (snd (Run Join w cfg rcfg)))"
  shows "Args_Cmd (commands (snd (Run Join w cfg rcfg)) ! i)
         = Join (BinDir_Run rcfg) ''cockroachdb-bench''
           # (Args rcfg
              @ [''-bench'', benches ! i]
              @ [''-cockroachdb-bin'', Join (BinDir_Run rcfg) ''cockroach'', ''-tmp'', TmpDir rcfg]
              @ (if Short rcfg then [''-short''] else []))"
  using Run_commands_nth [OF assms]
  by (simp add: bench_cmd_def bench_args_def exec_Command_def)

text \<open>The theorem at the first command of a short run.\<close>

theorem Run_argument_list_witness:
  "0 < length (commands (snd (Run example_Join world_ok example_cfg example_rcfg_short)))
   \<and> Args_Cmd (commands (snd (Run example_Join world_ok example_cfg example_rcfg_short)) ! 0)
       = [''/bin/cockroachdb-bench'', ''-v'', ''-bench'', ''kv0/nodes=1'',
          ''-cockroachdb-bin'', ''/bin/cockroach'', ''-tmp'', ''/tmp'', ''-short'']"
proof -
  have len: "0 < length (commands (snd (Run example_Join world_ok example_cfg example_rcfg_short)))"
    by (simp add: model_defs example_defs)
  from Run_argument_list [OF len] len show ?thesis
    by (simp add: example_defs benches_def)
qed

text \<open>C4 as stated fails in short mode: the arguments are not the base arguments,
  the variant flag, the short-mode flag and then the paths; \<open>-short\<close> comes after
  the paths.\<close>

theorem short_flag_before_paths_counterexample:
  "Short example_rcfg_short
   \<and> tl (Args_Cmd (hd (commands (snd (Run example_Join world_ok example_cfg example_rcfg_short)))))
       = [''-v'', ''-bench'', ''kv0/nodes=1'',
          ''-cockroachdb-bin'', ''/bin/cockroach'', ''-tmp'', ''/tmp'', ''-short'']
   \<and> tl (Args_Cmd (hd (commands (snd (Run example_Join world_ok example_cfg example_rcfg_short)))))
       \<noteq> Args example_rcfg_short @ [''-bench'', ''kv0/nodes=1''] @ [''-short'']
           @ [''-cockroachdb-bin'', ''/bin/cockroach'', ''-tmp'', ''/tmp'']"
  by (simp add: model_defs example_defs)

subsection \<open>Environment and output of a variant's process\<close>

text \<open>
  C7: every command \<open>Run\<close> runs has its \<open>Env\<close> field set to the collapsed exec
  environment of the configuration, and nothing else (the ambient environment of the
  harness process is not read), and both its \<open>Stdout\<close> and its \<open>Stderr\<close> set to the
  results file of the run.
\<close>

theorem Run_cmd_env_and_output:
  assumes "c \<in> set (commands (snd (Run Join w cfg rcfg)))"
  shows "Env c = Some (Collapse (ExecEnv cfg))
         \<and> Stdout c = Some (Results rcfg) \<and> Stderr c = Some (Results rcfg)"
  using Run_commands_mem [OF assms]
  by (auto simp: bench_cmd_def exec_Command_def)

text \<open>The theorem at the first variant's command of a successful run.\<close>

theorem Run_cmd_env_and_output_witness:
  "bench_cmd example_Join example_cfg example_rcfg ''kv0/nodes=1''
     \<in> set (commands (snd (Run example_Join world_ok example_cfg example_rcfg)))
   \<and> Env (bench_cmd example_Join example_cfg example_rcfg ''kv0/nodes=1'') = Some [''HOME=/root'']
   \<and> Stdout (bench_cmd example_Join example_cfg example_rcfg ''kv0/nodes=1'')
       = Some (Open_File ''results'')
   \<and> Stderr (bench_cmd example_Join example_cfg example_rcfg ''kv0/nodes=1'')
       = Some (Open_File ''results'')"
proof -
  have mem: "bench_cmd example_Join example_cfg example_rcfg ''kv0/nodes=1''
     \<in> set (commands (snd (Run example_Join world_ok example_cfg example_rcfg)))"
    by (simp add: model_defs example_defs)
  from Run_cmd_env_and_output [OF mem] mem show ?thesis
    by (simp add: example_defs Collapse_def)
qed

subsection \<open>A failed purge ends the run\<close>

text \<open>
  C10: when the trace of \<open>Run\<close> holds a purge that failed with the error \<open>e\<close>, that purge
  is the purge of \<open>TmpDir\<close> right after the successful process of one of the variants,
  \<open>Run\<close> returns \<open>e\<close>, and the failed purge is the last event of the trace: no remaining
  variant is invoked.
\<close>

theorem Run_purge_failure_is_fatal:
  assumes run: "Run Join w cfg rcfg = (r, tr)"
    and split: "tr = pre @ (rmDirContents dir, Some e) # post"
  shows "r = Some e \<and> post = [] \<and> dir = TmpDir rcfg
         \<and> (\<exists>pre' b. b \<in> set benches
               \<and> pre = pre' @ [(cmd_Run (bench_cmd Join cfg rcfg b), None)])"
proof -
  from run have loop: "run_loop Join w cfg rcfg benches [] = (r, tr)"
    by (simp add: Run_def)
  from run_loop_outcomes [OF loop] show ?thesis
  proof (elim disjE conjE exE bexE)
    assume "\<forall>x \<in> set tr. snd x = None"
    with split show ?thesis by auto
  next
    fix e' A ev b
    assume tr: "tr = A @ [(ev, Some e')]"
      and A: "\<forall>x \<in> set A. snd x = None"
      and ev: "ev = cmd_Run (bench_cmd Join cfg rcfg b)"
    from tr split have "A @ [(ev, Some e')] = pre @ (rmDirContents dir, Some e) # post"
      by simp
    from failure_is_last [OF A this] ev show ?thesis
      by simp
  next
    fix e' A ev b pre'
    assume r: "r = Some e'"
      and tr: "tr = A @ [(ev, Some e')]"
      and A: "\<forall>x \<in> set A. snd x = None"
      and b: "b \<in> set benches"
      and ev: "ev = rmDirContents (TmpDir rcfg)"
      and pre': "A = pre' @ [(cmd_Run (bench_cmd Join cfg rcfg b), None)]"
    from tr split have "A @ [(ev, Some e')] = pre @ (rmDirContents dir, Some e) # post"
      by simp
    from failure_is_last [OF A this]
    have "post = [] \<and> pre = A \<and> ev = rmDirContents dir \<and> e' = e"
      by simp
    with r b ev pre' show ?thesis by auto
  qed
qed

text \<open>The theorem in the world where every purge fails: \<open>Run\<close> returns the purge's
  error after the first variant.\<close>

theorem Run_purge_failure_is_fatal_witness:
  "Run example_Join world_purge_fails example_cfg example_rcfg
     = (Some (Error ''permission denied''),
        [(TraceCommand (bench_cmd example_Join example_cfg example_rcfg ''kv0/nodes=1'') False, None),
         (cmd_Run (bench_cmd example_Join example_cfg example_rcfg ''kv0/nodes=1''), None)]
        @ (rmDirContents ''/tmp'', Some (Error ''permission denied'')) # [])
   \<and> fst (Run example_Join world_purge_fails example_cfg example_rcfg)
       = Some (Error ''permission denied'')
   \<and> ''/tmp'' = TmpDir example_rcfg"
proof -
  have run: "Run example_Join world_purge_fails example_cfg example_rcfg
     = (Some (Error ''permission denied''),
        [(TraceCommand (bench_cmd example_Join example_cfg example_rcfg ''kv0/nodes=1'') False, None),
         (cmd_Run (bench_cmd example_Join example_cfg example_rcfg ''kv0/nodes=1''), None)]
        @ (rmDirContents ''/tmp'', Some (Error ''permission denied'')) # [])"
    by (simp add: model_defs example_defs)
  from Run_purge_failure_is_fatal [OF run refl] run show ?thesis
    by simp
qed

subsection \<open>The cleanup of the build workspace\<close>

text \<open>
  C2, as the code has it: \<open>bazel clean --expunge\<close> is registered by \<open>defer\<close> only after
  the first step, the installation of bazelisk, has succeeded.  When that step
  succeeds, the cleanup runs exactly once and is the last event of \<open>Build\<close>, whichever
  of the later steps fails or none; when the installation fails, \<open>Build\<close> returns with
  that single event in its trace and the cleanup does not run.
\<close>

theorem Build_cleanup_after_install:
  "cleanups bcfg (snd (Build Join w cfg bcfg))
     = (if w [] (GoTool_Do [] [''install'', ''github.com/bazelbuild/bazelisk@latest'']) = None
        then 1 else 0)
   \<and> (if w [] (GoTool_Do [] [''install'', ''github.com/bazelbuild/bazelisk@latest'']) = None
      then fst (last (snd (Build Join w cfg bcfg))) = cmd_Run (bazel_clean bcfg)
      else length (snd (Build Join w cfg bcfg)) = 1)"
proof (cases "w [] (GoTool_Do [] [''install'', ''github.com/bazelbuild/bazelisk@latest''])")
  case None
  let ?tr1 = "[(GoTool_Do [] [''install'', ''github.com/bazelbuild/bazelisk@latest''], None)]"
  let ?tr2 = "snd (Build_steps Join w cfg bcfg ?tr1)"
  have tr: "snd (Build Join w cfg bcfg)
      = ?tr2 @ [(cmd_Run (bazel_clean bcfg), w ?tr2 (cmd_Run (bazel_clean bcfg)))]"
    using None by (simp add: Build_def perform_def split: prod.splits)
  have "cleanups bcfg ?tr2 = 0"
    by (simp add: Build_steps_no_cleanup) (simp add: cleanups_def)
  with tr None show ?thesis
    by (simp add: cleanups_append) (simp add: cleanups_def)
next
  case (Some err)
  then show ?thesis
    by (simp add: Build_def perform_def cleanups_def)
qed

text \<open>The theorem in the world where every step succeeds: one cleanup.\<close>

theorem Build_cleanup_after_install_witness:
  "cleanups example_bcfg (snd (Build example_Join world_ok example_cfg example_bcfg)) = 1
   \<and> fst (Build example_Join world_ok example_cfg example_bcfg) = None"
proof -
  have "fst (Build example_Join world_ok example_cfg example_bcfg) = None"
    by (simp add: Build_def Build_steps_run_steps build_events_def ok_then_def perform_def
        world_ok_def)
  with Build_cleanup_after_install [of example_bcfg example_Join world_ok example_cfg]
  show ?thesis
    by (simp add: world_ok_def)
qed

text \<open>C2 as stated fails at the first step: when the installation of bazelisk
  fails, \<open>Build\<close> returns the wrapped error and the cleanup has not run.\<close>

theorem cleanup_after_failed_install_counterexample:
  "Build example_Join world_install_fails example_cfg example_bcfg
     = (Some (Error ''error building bazelisk: exit status 1''),
        [(GoTool_Do [] [''install'', ''github.com/bazelbuild/bazelisk@latest''],
          Some (Error ''exit status 1''))])
   \<and> cleanups example_bcfg (snd (Build example_Join world_install_fails example_cfg example_bcfg))
       = 0"
  by (simp add: Build_def perform_def world_install_fails_def cleanups_def)

subsection \<open>The name of the built artifact\<close>

text \<open>
  C6: a \<open>Build\<close> that returns \<open>nil\<close> has built \<open>pkg/cmd/cockroach-short\<close> into \<open>BinDir\<close>
  and copied \<open>BinDir/cockroach-short\<close> to \<open>BinDir/cockroach\<close>; every command of a \<open>Run\<close>
  over the same \<open>BinDir\<close> names the artifact once, as the value of \<open>-cockroachdb-bin\<close>,
  and that value is \<open>BinDir/cockroach\<close>, the destination of the copy.
\<close>

theorem artifact_name_agrees:
  assumes "BinDir_Run rcfg = BinDir bcfg"
  shows "(fst (Build Join w cfg bcfg) = None \<longrightarrow>
            (GoTool_BuildPath (Join (SrcDir bcfg) ''pkg/cmd/cockroach-short'') (BinDir bcfg), None)
              \<in> set (snd (Build Join w cfg bcfg))
            \<and> (copyFile (Join (BinDir bcfg) ''cockroach'') (Join (BinDir bcfg) ''cockroach-short''),
                 None) \<in> set (snd (Build Join w cfg bcfg)))
       \<and> (\<forall>c \<in> set (commands (snd (Run Join w' cfg' rcfg))).
            \<exists>b \<in> set benches.
              Args_Cmd c = Join (BinDir bcfg) ''cockroachdb-bench''
                # (Args rcfg
                   @ [''-bench'', b, ''-cockroachdb-bin'', Join (BinDir bcfg) ''cockroach'',
                      ''-tmp'', TmpDir rcfg]
                   @ (if Short rcfg then [''-short''] else [])))"
proof (rule conjI)
  show "fst (Build Join w cfg bcfg) = None \<longrightarrow>
            (GoTool_BuildPath (Join (SrcDir bcfg) ''pkg/cmd/cockroach-short'') (BinDir bcfg), None)
              \<in> set (snd (Build Join w cfg bcfg))
            \<and> (copyFile (Join (BinDir bcfg) ''cockroach'') (Join (BinDir bcfg) ''cockroach-short''),
                 None) \<in> set (snd (Build Join w cfg bcfg))"
    by (rule impI) (rule Build_ok_copies)
next
  show "\<forall>c \<in> set (commands (snd (Run Join w' cfg' rcfg))).
            \<exists>b \<in> set benches.
              Args_Cmd c = Join (BinDir bcfg) ''cockroachdb-bench''
                # (Args rcfg
                   @ [''-bench'', b, ''-cockroachdb-bin'', Join (BinDir bcfg) ''cockroach'',
                      ''-tmp'', TmpDir rcfg]
                   @ (if Short rcfg then [''-short''] else []))"
    unfolding assms [symmetric] by (rule ballI) (rule Run_commands_args)
qed

text \<open>The theorem for a successful build and run over \<open>/bin\<close>.\<close>

theorem artifact_name_agrees_witness:
  "BinDir_Run example_rcfg = BinDir example_bcfg
   \<and> fst (Build example_Join world_ok example_cfg example_bcfg) = None
   \<and> (copyFile ''/bin/cockroach'' ''/bin/cockroach-short'', None)
        \<in> set (snd (Build example_Join world_ok example_cfg example_bcfg))
   \<and> [''-cockroachdb-bin'', ''/bin/cockroach'']
       = take 2 (drop 4 (Args_Cmd (hd (commands
           (snd (Run example_Join world_ok example_cfg example_rcfg))))))"
proof -
  have dirs: "BinDir_Run example_rcfg = BinDir example_bcfg"
    by (simp add: example_rcfg_def example_bcfg_def)
  have ok: "fst (Build example_Join world_ok example_cfg example_bcfg) = None"
    by (simp add: Build_def Build_steps_run_steps build_events_def ok_then_def perform_def
        world_ok_def)
  have run: "[''-cockroachdb-bin'', ''/bin/cockroach'']
       = take 2 (drop 4 (Args_Cmd (hd (commands
           (snd (Run example_Join world_ok example_cfg example_rcfg))))))"
    by (simp add: model_defs example_defs)
  from artifact_name_agrees [OF dirs, of example_Join world_ok example_cfg] ok
  have "(copyFile (example_Join (BinDir example_bcfg) ''cockroach'')
           (example_Join (BinDir example_bcfg) ''cockroach-short''), None)
        \<in> set (snd (Build example_Join world_ok example_cfg example_bcfg))"
    by blast
  then have "(copyFile ''/bin/cockroach'' ''/bin/cockroach-short'', None)
        \<in> set (snd (Build example_Join world_ok example_cfg example_bcfg))"
    by (simp add: example_Join_def example_bcfg_def)
  with dirs ok run show ?thesis by simp
qed

end
